theory Spec2Isabelle
  imports Main "HOL-Library.Word"
begin

section \<open>BLAKE2sp tree construction of \<open>c_src/blake2sp.c\<close>\<close>

text \<open>
  The file embeds the three functions of \<open>c_src/blake2sp.c\<close>: \<open>blake2sp_init_leaf\<close>,
  \<open>blake2sp_init_root\<close> and the NIF entry point \<open>blake2sp_hash\<close>. The BLAKE2s primitive
  (\<open>blake2.h\<close>, \<open>blake2-impl.h\<close>, \<open>blake2s-ref.c\<close>) is not part of the sources at hand; its
  interface is modelled from section 6 of the specification and its compression function
  is an opaque parameter of the model.
\<close>

subsection \<open>Bytes, memory and binaries\<close>

type_synonym u8 = "8 word"

text \<open>
  A pointer is modelled by the memory it points at: a function from byte offsets to bytes.
  \<open>mem_read p off n\<close> are the \<open>n\<close> bytes at \<open>p + off\<close>.
\<close>

definition mem_read :: "(nat \<Rightarrow> u8) \<Rightarrow> nat \<Rightarrow> nat \<Rightarrow> u8 list" where
  "mem_read p off n = map p [off..<off + n]"

text \<open>
  \<open>memcpy(dst, src, n)\<close> and \<open>memset(dst, c, n)\<close> on a destination buffer given by its
  contents: the first \<open>n\<close> bytes are overwritten, the others stay.
\<close>

definition memcpy :: "u8 list \<Rightarrow> (nat \<Rightarrow> u8) \<Rightarrow> nat \<Rightarrow> u8 list" where
  "memcpy dst src n = mem_read src 0 n @ drop n dst"

definition memset :: "u8 list \<Rightarrow> u8 \<Rightarrow> nat \<Rightarrow> u8 list" where
  "memset dst c n = replicate n c @ drop n dst"

text \<open>
  \<open>ErlNifBinary\<close> of \<open>erl_nif.h\<close>: the fields \<open>size\<close> and \<open>data\<close>. Only the first \<open>size\<close>
  bytes at \<open>data\<close> belong to the binary; \<open>data_bin b k\<close> for \<open>k \<ge> size_bin b\<close> is whatever
  lies behind the binary in memory.
\<close>

record ErlNifBinary =
  size_bin :: nat
  data_bin :: "nat \<Rightarrow> u8"

definition bytes_of :: "ErlNifBinary \<Rightarrow> u8 list" where
  "bytes_of b = mem_read (data_bin b) 0 (size_bin b)"

subsection \<open>Constants\<close>

definition PARALLELISM_DEGREE :: nat where
  "PARALLELISM_DEGREE = 8"

text \<open>
  Modelled from the spec: the constants of \<open>blake2.h\<close>, which is missing. The specification
  gives a native output size of 32 bytes, keys of at most 32 bytes, and salt and
  personalization fields of 8 bytes. It names the block size B of the primitive without a
  value; 64, the block size of BLAKE2s, is taken for it.
\<close>

definition BLAKE2S_BLOCKBYTES :: nat where
  "BLAKE2S_BLOCKBYTES = 64"

definition BLAKE2S_OUTBYTES :: nat where
  "BLAKE2S_OUTBYTES = 32"

definition BLAKE2S_KEYBYTES :: nat where
  "BLAKE2S_KEYBYTES = 32"

definition BLAKE2S_SALTBYTES :: nat where
  "BLAKE2S_SALTBYTES = 8"

definition BLAKE2S_PERSONALBYTES :: nat where
  "BLAKE2S_PERSONALBYTES = 8"

subsection \<open>The primitive's parameter block and state\<close>

text \<open>
  Modelled from the spec: \<open>blake2s_param\<close> of \<open>blake2.h\<close>, which is missing. The fields are
  those that \<open>blake2sp_init_leaf\<close> assigns: \<open>node_offset\<close> is a byte array written by
  \<open>store48\<close>, \<open>salt\<close> and \<open>personal\<close> are byte arrays written by \<open>memcpy\<close> or \<open>memset\<close>.
\<close>

record blake2s_param =
  digest_length :: u8
  key_length :: u8
  fanout :: u8
  depth :: u8
  leaf_length :: "32 word"
  node_offset :: "u8 list"
  node_depth :: u8
  inner_length :: u8
  salt :: "u8 list"
  personal :: "u8 list"

text \<open>
  Modelled from the spec: \<open>store32\<close> and \<open>store48\<close> of \<open>blake2-impl.h\<close>, which is missing.
  They write the low 32 (48) bits of a value, least significant byte first. The field
  \<open>leaf_length\<close> is kept as the 32-bit value that its four bytes encode, \<open>node_offset\<close> as
  its six bytes.
\<close>

definition store32 :: "32 word \<Rightarrow> 32 word" where
  "store32 w = w"

definition store48 :: "64 word \<Rightarrow> u8 list" where
  "store48 w = map (\<lambda>k. ucast (drop_bit (8 * k) w)) [0..<6]"

text \<open>
  Modelled from the spec: \<open>blake2s_state\<close> of \<open>blake2.h\<close>, which is missing. The compression
  state is abstracted to what determines it: the parameter block the state was initialized
  from, the last-node flag, and the \<open>blake2s_update\<close> calls made on it, in order, each with
  the bytes it was given.
\<close>

record blake2s_state =
  param :: blake2s_param
  last_node :: bool
  absorbed :: "u8 list list"

text \<open>
  Modelled from the spec: the primitive itself, which is missing. \<open>init_ok\<close> says which
  parameter blocks \<open>blake2s_init_param\<close> accepts ("fails if params are malformed");
  \<open>digest_byte S k\<close> is byte \<open>k\<close> of the hash that finalizing the state \<open>S\<close> produces.
\<close>

record blake2s_prim =
  init_ok :: "blake2s_param \<Rightarrow> bool"
  digest_byte :: "blake2s_state \<Rightarrow> nat \<Rightarrow> u8"

text \<open>
  Modelled from the spec: \<open>init(params) -> state\<close>; \<open>None\<close> is the negative return value.
  A fresh state has absorbed nothing and is not flagged as last node.
\<close>

definition blake2s_init_param :: "blake2s_prim \<Rightarrow> blake2s_param \<Rightarrow> blake2s_state option" where
  "blake2s_init_param prim P =
     (if init_ok prim P then Some \<lparr>param = P, last_node = False, absorbed = []\<rparr> else None)"

text \<open>Modelled from the spec: \<open>update(state, bytes)\<close> absorbs bytes, order-sensitive.\<close>

definition blake2s_update :: "blake2s_state \<Rightarrow> u8 list \<Rightarrow> blake2s_state" where
  "blake2s_update S bytes = S\<lparr>absorbed := absorbed S @ [bytes]\<rparr>"

text \<open>Modelled from the spec: \<open>final(state, outlen) -> bytes[outlen]\<close>.\<close>

definition blake2s_final :: "blake2s_prim \<Rightarrow> blake2s_state \<Rightarrow> nat \<Rightarrow> u8 list" where
  "blake2s_final prim S outlen = map (digest_byte prim S) [0..<outlen]"

text \<open>
  Modelled from the spec: \<open>secure_zero_memory\<close> of \<open>blake2-impl.h\<close>, which is missing: a
  non-elidable overwrite of \<open>n\<close> bytes with zeros.
\<close>

definition secure_zero_memory :: "u8 list \<Rightarrow> nat \<Rightarrow> u8 list" where
  "secure_zero_memory buf n = replicate n 0 @ drop n buf"

subsection \<open>\<open>blake2sp_init_leaf\<close> and \<open>blake2sp_init_root\<close>\<close>

text \<open>
  The parameter block \<open>P\<close> that \<open>blake2sp_init_leaf\<close> fills in (lines 33 to 51). \<open>salt\<close> and
  \<open>personal\<close> are the pointers \<open>salt.data\<close> and \<open>personal.data\<close>; a nonzero length copies
  \<open>BLAKE2S_SALTBYTES\<close> (\<open>BLAKE2S_PERSONALBYTES\<close>) bytes from there, whatever the length is.
\<close>

definition blake2sp_leaf_param ::
    "u8 \<Rightarrow> u8 \<Rightarrow> 64 word \<Rightarrow> (nat \<Rightarrow> u8) \<Rightarrow> (nat \<Rightarrow> u8) \<Rightarrow> u8 \<Rightarrow> u8 \<Rightarrow> blake2s_param" where
  "blake2sp_leaf_param outlen keylen offset salt_p personal_p saltlen personallen =
     \<lparr>digest_length = outlen,
      key_length = keylen,
      fanout = of_nat PARALLELISM_DEGREE,
      depth = 2,
      leaf_length = store32 0,
      node_offset = store48 offset,
      node_depth = 0,
      inner_length = of_nat BLAKE2S_OUTBYTES,
      salt = (if saltlen \<noteq> 0 then mem_read salt_p 0 BLAKE2S_SALTBYTES
              else replicate BLAKE2S_SALTBYTES 0),
      personal = (if personallen \<noteq> 0 then mem_read personal_p 0 BLAKE2S_PERSONALBYTES
                  else replicate BLAKE2S_PERSONALBYTES 0)\<rparr>"

definition blake2sp_init_leaf ::
    "blake2s_prim \<Rightarrow> u8 \<Rightarrow> u8 \<Rightarrow> 64 word \<Rightarrow> (nat \<Rightarrow> u8) \<Rightarrow> (nat \<Rightarrow> u8) \<Rightarrow> u8 \<Rightarrow> u8
      \<Rightarrow> blake2s_state option" where
  "blake2sp_init_leaf prim outlen keylen offset salt_p personal_p saltlen personallen =
     blake2s_init_param prim
       (blake2sp_leaf_param outlen keylen offset salt_p personal_p saltlen personallen)"

text \<open>The parameter block of \<open>blake2sp_init_root\<close> (lines 58 to 76).\<close>

definition blake2sp_root_param ::
    "u8 \<Rightarrow> u8 \<Rightarrow> (nat \<Rightarrow> u8) \<Rightarrow> (nat \<Rightarrow> u8) \<Rightarrow> u8 \<Rightarrow> u8 \<Rightarrow> blake2s_param" where
  "blake2sp_root_param outlen keylen salt_p personal_p saltlen personallen =
     \<lparr>digest_length = outlen,
      key_length = keylen,
      fanout = of_nat PARALLELISM_DEGREE,
      depth = 2,
      leaf_length = store32 0,
      node_offset = store48 0,
      node_depth = 1,
      inner_length = of_nat BLAKE2S_OUTBYTES,
      salt = (if saltlen \<noteq> 0 then mem_read salt_p 0 BLAKE2S_SALTBYTES
              else replicate BLAKE2S_SALTBYTES 0),
      personal = (if personallen \<noteq> 0 then mem_read personal_p 0 BLAKE2S_PERSONALBYTES
                  else replicate BLAKE2S_PERSONALBYTES 0)\<rparr>"

definition blake2sp_init_root ::
    "blake2s_prim \<Rightarrow> u8 \<Rightarrow> u8 \<Rightarrow> (nat \<Rightarrow> u8) \<Rightarrow> (nat \<Rightarrow> u8) \<Rightarrow> u8 \<Rightarrow> u8
      \<Rightarrow> blake2s_state option" where
  "blake2sp_init_root prim outlen keylen salt_p personal_p saltlen personallen =
     blake2s_init_param prim
       (blake2sp_root_param outlen keylen salt_p personal_p saltlen personallen)"

subsection \<open>\<open>blake2sp_hash\<close>\<close>

text \<open>
  What the call returns: \<open>enif_make_badarg\<close> (line 96), the value \<open>-1\<close> (lines 98, 99, 104
  and 152; the model keeps apart which \<open>return -1\<close> was taken), or the list of unsigned
  integers made from \<open>out[0..outlen-1]\<close> (line 165).
\<close>

datatype nif_return =
    Badarg
  | Bad_Outlen
  | Bad_Keylen
  | Leaf_Init_Failed
  | Root_Init_Failed
  | UInt_List "nat list"

text \<open>
  The local variables of \<open>blake2sp_hash\<close> when it returns, together with the returned value.
  \<open>S_arr\<close> holds the leaf states \<open>S[i]\<close> initialized so far, \<open>FS_st\<close> the root state once
  initialized, \<open>hash_arr\<close> the lane digests \<open>hash[i]\<close> written so far, \<open>block_buf\<close> the key
  block buffer \<open>block\<close> as it is left when its scope ends (\<open>None\<close> if the scope was never
  entered), \<open>out_buf\<close> the buffer \<open>out\<close>.
\<close>

record hash_run =
  ret :: nif_return
  S_arr :: "blake2s_state list"
  FS_st :: "blake2s_state option"
  hash_arr :: "u8 list list"
  block_buf :: "u8 list option"
  out_buf :: "u8 list"

text \<open>
  The loop of lines 101 to 104 over the lane indices: it stops at the first leaf whose
  initialization fails (\<open>False\<close>), keeping the states initialized before.
\<close>

fun init_leaves ::
    "(nat \<Rightarrow> blake2s_state option) \<Rightarrow> nat list \<Rightarrow> blake2s_state list \<Rightarrow> blake2s_state list \<times> bool" where
  "init_leaves f [] S = (S, True)"
| "init_leaves f (i # is) S =
     (case f i of None \<Rightarrow> (S, False) | Some s \<Rightarrow> init_leaves f is (S @ [s]))"

text \<open>
  The \<open>while\<close> loop of lines 134 to 139 for one lane: \<open>off\<close> is the offset of \<open>in__\<close> from
  \<open>input.data\<close>, \<open>inlen\<close> is \<open>inlen__\<close>. Neither can wrap around: \<open>inlen\<close> only decreases
  and \<open>off\<close> stays below \<open>input.size + 512\<close>.
\<close>

function lane_loop ::
    "(nat \<Rightarrow> u8) \<Rightarrow> blake2s_state \<Rightarrow> nat \<Rightarrow> nat \<Rightarrow> blake2s_state \<times> nat \<times> nat" where
  "lane_loop mem s off inlen =
     (if inlen \<ge> PARALLELISM_DEGREE * BLAKE2S_BLOCKBYTES
      then lane_loop mem (blake2s_update s (mem_read mem off BLAKE2S_BLOCKBYTES))
             (off + PARALLELISM_DEGREE * BLAKE2S_BLOCKBYTES)
             (inlen - PARALLELISM_DEGREE * BLAKE2S_BLOCKBYTES)
      else (s, off, inlen))"
  by pat_completeness auto
termination
  by (relation "measure (\<lambda>(mem, s, off, inlen). inlen)")
     (auto simp: PARALLELISM_DEGREE_def BLAKE2S_BLOCKBYTES_def)

declare lane_loop.simps [simp del]

text \<open>
  The body of the lane loop (lines 130 to 148) for lane \<open>id__\<close> (here \<open>lane\<close>), up to the
  call of \<open>blake2s_final\<close>: the strided full blocks, then the tail. The model is the build
  without OpenMP, where the lanes run one after the other; an iteration reads and writes
  only \<open>S[id__]\<close> and \<open>hash[id__]\<close>.
\<close>

definition lane_absorb :: "ErlNifBinary \<Rightarrow> nat \<Rightarrow> blake2s_state \<Rightarrow> blake2s_state" where
  "lane_absorb input lane s =
     (case lane_loop (data_bin input) s (lane * BLAKE2S_BLOCKBYTES) (size_bin input) of
        (s1, off, inlen) \<Rightarrow>
          if inlen > lane * BLAKE2S_BLOCKBYTES
          then (let left = inlen - lane * BLAKE2S_BLOCKBYTES;
                    len = (if left \<le> BLAKE2S_BLOCKBYTES then left else BLAKE2S_BLOCKBYTES)
                in blake2s_update s1 (mem_read (data_bin input) off len))
          else s1)"

text \<open>
  Lines 108 to 118: the key block is built, absorbed by each leaf, and erased. The result
  is the leaf states and the buffer \<open>block\<close> as it is left. The buffer is declared without
  a value and overwritten whole by \<open>memset\<close>, so what it holds before does not matter.
\<close>

definition key_phase ::
    "ErlNifBinary \<Rightarrow> blake2s_state list \<Rightarrow> blake2s_state list \<times> u8 list option" where
  "key_phase key S =
     (if size_bin key > 0
      then (let block0 = memset (replicate BLAKE2S_BLOCKBYTES 0) 0 BLAKE2S_BLOCKBYTES;
                block1 = memcpy block0 (data_bin key) (size_bin key);
                S' = map (\<lambda>s. blake2s_update s block1) S
            in (S', Some (secure_zero_memory block1 BLAKE2S_BLOCKBYTES)))
      else (S, None))"

text \<open>
  The body of \<open>blake2sp_hash\<close> from line 98 on, on the decoded arguments. \<open>outlen\<close> is an
  \<open>unsigned int\<close>; the lengths passed to \<open>blake2sp_init_leaf\<close> and \<open>blake2sp_init_root\<close> are
  converted to \<open>uint8_t\<close>, the lane index to \<open>uint64_t\<close>. \<open>leaf_block\<close> and \<open>root_block\<close>
  name the parameter blocks that these calls build.
\<close>

definition leaf_block ::
    "32 word \<Rightarrow> ErlNifBinary \<Rightarrow> ErlNifBinary \<Rightarrow> ErlNifBinary \<Rightarrow> nat \<Rightarrow> blake2s_param" where
  "leaf_block outlen key salt_b personal_b i =
     blake2sp_leaf_param (ucast outlen) (of_nat (size_bin key)) (of_nat i)
       (data_bin salt_b) (data_bin personal_b)
       (of_nat (size_bin salt_b)) (of_nat (size_bin personal_b))"

definition root_block ::
    "32 word \<Rightarrow> ErlNifBinary \<Rightarrow> ErlNifBinary \<Rightarrow> ErlNifBinary \<Rightarrow> blake2s_param" where
  "root_block outlen key salt_b personal_b =
     blake2sp_root_param (ucast outlen) (of_nat (size_bin key))
       (data_bin salt_b) (data_bin personal_b)
       (of_nat (size_bin salt_b)) (of_nat (size_bin personal_b))"

text \<open>
  The locals before anything is computed: only \<open>out\<close> is initialized (line 86). The
  returned value of this record is \<open>badarg\<close>, which is what a call returns that fails
  before line 98.
\<close>

definition locals0 :: hash_run where
  "locals0 = \<lparr>ret = Badarg, S_arr = [], FS_st = None, hash_arr = [], block_buf = None,
              out_buf = replicate BLAKE2S_OUTBYTES 0\<rparr>"

definition blake2sp_body ::
    "blake2s_prim \<Rightarrow> ErlNifBinary \<Rightarrow> ErlNifBinary \<Rightarrow> 32 word \<Rightarrow> ErlNifBinary \<Rightarrow> ErlNifBinary
      \<Rightarrow> hash_run" where
  "blake2sp_body prim input key outlen salt_b personal_b =
     (let r0 = locals0
      in
      if outlen = 0 \<or> outlen > of_nat BLAKE2S_OUTBYTES then r0\<lparr>ret := Bad_Outlen\<rparr>
      else if size_bin key > BLAKE2S_KEYBYTES then r0\<lparr>ret := Bad_Keylen\<rparr>
      else
        case init_leaves
               (\<lambda>i. blake2sp_init_leaf prim (ucast outlen) (of_nat (size_bin key)) (of_nat i)
                      (data_bin salt_b) (data_bin personal_b)
                      (of_nat (size_bin salt_b)) (of_nat (size_bin personal_b)))
               [0..<PARALLELISM_DEGREE] [] of
          (S0, False) \<Rightarrow> r0\<lparr>ret := Leaf_Init_Failed, S_arr := S0\<rparr>
        | (S0, True) \<Rightarrow>
            (let S1 = S0[PARALLELISM_DEGREE - 1 :=
                         (S0 ! (PARALLELISM_DEGREE - 1))\<lparr>last_node := True\<rparr>];
                 (S2, blk) = key_phase key S1;
                 S3 = map (\<lambda>lane. lane_absorb input lane (S2 ! lane)) [0..<PARALLELISM_DEGREE];
                 hash = map (\<lambda>lane. blake2s_final prim (S3 ! lane) BLAKE2S_OUTBYTES)
                          [0..<PARALLELISM_DEGREE];
                 r1 = r0\<lparr>S_arr := S3, hash_arr := hash, block_buf := blk\<rparr>
             in
             case blake2sp_init_root prim (ucast outlen) (of_nat (size_bin key))
                    (data_bin salt_b) (data_bin personal_b)
                    (of_nat (size_bin salt_b)) (of_nat (size_bin personal_b)) of
               None \<Rightarrow> r1\<lparr>ret := Root_Init_Failed\<rparr>
             | Some FS0 \<Rightarrow>
                 (let FS1 = FS0\<lparr>last_node := True\<rparr>;
                      FS2 = foldl blake2s_update FS1 hash;
                      out' = blake2s_final prim FS2 (unat outlen)
                               @ drop (unat outlen) (out_buf r0)
                  in r1\<lparr>ret := UInt_List (map unat (take (unat outlen) out')),
                        FS_st := Some FS2, out_buf := out'\<rparr>)))"

text \<open>
  Lines 91 to 96: the arguments are decoded; anything but five arguments of the right kinds
  is \<open>badarg\<close>. An Erlang term is a binary, an integer or something else;
  \<open>enif_get_uint\<close> accepts the integers that fit an \<open>unsigned int\<close>.
\<close>

datatype erl_term = Term_Binary ErlNifBinary | Term_Integer int | Term_Other

fun enif_inspect_binary :: "erl_term \<Rightarrow> ErlNifBinary option" where
  "enif_inspect_binary (Term_Binary b) = Some b"
| "enif_inspect_binary _ = None"

fun enif_get_uint :: "erl_term \<Rightarrow> 32 word option" where
  "enif_get_uint (Term_Integer n) = (if 0 \<le> n \<and> n < 2 ^ 32 then Some (word_of_int n) else None)"
| "enif_get_uint _ = None"

fun blake2sp_hash :: "blake2s_prim \<Rightarrow> erl_term list \<Rightarrow> hash_run" where
  "blake2sp_hash prim [a0, a1, a2, a3, a4] =
     (case (enif_inspect_binary a0, enif_inspect_binary a1, enif_get_uint a2,
            enif_inspect_binary a3, enif_inspect_binary a4) of
        (Some input, Some key, Some outlen, Some salt_b, Some personal_b) \<Rightarrow>
          blake2sp_body prim input key outlen salt_b personal_b
      | _ \<Rightarrow> locals0)"
| "blake2sp_hash prim _ = locals0"

subsection \<open>Notions used to state the properties\<close>

text \<open>
  The block-strided slice of a message for lane \<open>i\<close>, in the words of the specification:
  with block size B = 64 and N = 8 lanes, the full blocks at the offsets \<open>i*B\<close>,
  \<open>i*B + N*B\<close>, \<open>i*B + 2*N*B\<close>, ... for as long as at least \<open>N*B\<close> bytes remain, and then,
  with \<open>R = L mod (N*B)\<close>, one chunk of \<open>min B (R - i*B)\<close> bytes if \<open>R > i*B\<close>.
\<close>

definition lane_slices :: "u8 list \<Rightarrow> nat \<Rightarrow> u8 list list" where
  "lane_slices msg i =
     (let L = length msg; B = 64; N = 8; R = L mod (N * B)
      in map (\<lambda>j. take B (drop (i * B + j * (N * B)) msg)) [0..<L div (N * B)] @
         (if R > i * B then [take (min B (R - i * B)) (drop (i * B + (L div (N * B)) * (N * B)) msg)]
          else []))"

text \<open>
  The key block in the words of the specification: one block of the primitive, the key
  left-justified, padded with zeros.
\<close>

definition key_block :: "ErlNifBinary \<Rightarrow> u8 list" where
  "key_block key = bytes_of key @ replicate (64 - size_bin key) 0"


subsection \<open>A concrete call\<close>

text \<open>
  A primitive that accepts every parameter block, with some digest function, and a keyed
  call on a message of 700 bytes: one full round of eight blocks and a tail of 188 bytes.
\<close>

definition example_prim :: blake2s_prim where
  "example_prim =
     \<lparr>init_ok = (\<lambda>P. True), digest_byte = (\<lambda>S k. of_nat (length (absorbed S) + k))\<rparr>"

definition example_input :: ErlNifBinary where
  "example_input = \<lparr>size_bin = 700, data_bin = (\<lambda>k. of_nat k)\<rparr>"

definition example_key :: ErlNifBinary where
  "example_key = \<lparr>size_bin = 3, data_bin = (\<lambda>k. of_nat (k + 1))\<rparr>"

definition example_salt :: ErlNifBinary where
  "example_salt = \<lparr>size_bin = 8, data_bin = (\<lambda>k. 5)\<rparr>"

definition example_personal :: ErlNifBinary where
  "example_personal = \<lparr>size_bin = 0, data_bin = (\<lambda>k. 0)\<rparr>"

definition example_no_key :: ErlNifBinary where
  "example_no_key = \<lparr>size_bin = 0, data_bin = (\<lambda>k. 0)\<rparr>"

text \<open>
  A salt of one byte, 1; the bytes that follow it in memory are not part of the binary
  (here they are 255).
\<close>

definition short_salt :: ErlNifBinary where
  "short_salt = \<lparr>size_bin = 1, data_bin = (\<lambda>k. if k = 0 then 1 else 255)\<rparr>"

definition example_run :: hash_run where
  "example_run =
     blake2sp_body example_prim example_input example_key 16 example_salt example_personal"

section \<open>Properties\<close>

subsection \<open>Auxiliary facts\<close>

lemma upt8: "[0..<8] = [0, 1, 2, 3, 4, 5, 6, 7]"
  by (simp add: upt_rec)

lemma lt8_cases: "i < 8 \<Longrightarrow> i \<in> {0, 1, 2, 3, 4, 5, 6, 7::nat}"
  by auto

lemma mem_read_slice:
  "off + n \<le> L \<Longrightarrow> mem_read p off n = take n (drop off (mem_read p 0 L))"
  by (simp add: mem_read_def take_map drop_map)

lemma length_bytes_of [simp]: "length (bytes_of b) = size_bin b"
  by (simp add: bytes_of_def mem_read_def)

lemma length_blake2s_final [simp]: "length (blake2s_final prim S n) = n"
  by (simp add: blake2s_final_def)

lemma foldl_update: "foldl blake2s_update s xs = s\<lparr>absorbed := absorbed s @ xs\<rparr>"
  by (induction xs arbitrary: s) (simp_all add: blake2s_update_def)

text \<open>The strided loop of a lane absorbs \<open>inlen div 512\<close> blocks, 512 bytes apart.\<close>

lemma lane_loop_eq:
  "lane_loop mem s off inlen =
     (s\<lparr>absorbed := absorbed s @ map (\<lambda>k. mem_read mem (off + 512 * k) 64) [0..<inlen div 512]\<rparr>,
      off + 512 * (inlen div 512), inlen mod 512)"
proof (induction mem s off inlen rule: lane_loop.induct)
  case (1 mem s off inlen)
  show ?case
  proof (cases "inlen \<ge> 512")
    case True
    define q where "q = (inlen - 512) div 512"
    have q: "inlen div 512 = Suc q" "(inlen - 512) div 512 = q"
      using True by (simp_all add: q_def le_div_geq)
    have m: "(inlen - 512) mod 512 = inlen mod 512"
      using True by (simp add: le_mod_geq)
    have ih: "lane_loop mem (blake2s_update s (mem_read mem off 64)) (off + 512) (inlen - 512) =
      ((blake2s_update s (mem_read mem off 64))
         \<lparr>absorbed := absorbed (blake2s_update s (mem_read mem off 64))
            @ map (\<lambda>k. mem_read mem (off + 512 + 512 * k) 64) [0..<(inlen - 512) div 512]\<rparr>,
       off + 512 + 512 * ((inlen - 512) div 512), (inlen - 512) mod 512)"
      using "1.IH" True by (simp add: PARALLELISM_DEGREE_def BLAKE2S_BLOCKBYTES_def)
    have sh: "map (\<lambda>k. mem_read mem (off + 512 * k) 64) [0..<Suc q]
        = mem_read mem off 64 # map (\<lambda>k. mem_read mem (off + 512 + 512 * k) 64) [0..<q]"
      by (simp add: upt_conv_Cons map_Suc_upt [symmetric] add.assoc del: upt_Suc)
    have "lane_loop mem s off inlen =
        lane_loop mem (blake2s_update s (mem_read mem off 64)) (off + 512) (inlen - 512)"
      using True
      by (subst lane_loop.simps) (simp add: PARALLELISM_DEGREE_def BLAKE2S_BLOCKBYTES_def)
    also note ih
    finally show ?thesis
      by (simp add: q m sh blake2s_update_def del: upt_Suc)
  next
    case False
    then show ?thesis
      by (subst lane_loop.simps) (simp add: PARALLELISM_DEGREE_def BLAKE2S_BLOCKBYTES_def)
  qed
qed

text \<open>What a lane absorbs is its slice of the message: every read stays inside the input.\<close>

lemma lane_absorb_eq:
  assumes "i < 8"
  shows "lane_absorb input i s = s\<lparr>absorbed := absorbed s @ lane_slices (bytes_of input) i\<rparr>"
proof -
  define L where "L = size_bin input"
  define q where "q = L div 512"
  define R where "R = L mod 512"
  have L: "L = 512 * q + R" and R: "R < 512"
    by (simp_all add: q_def R_def)
  have full: "map (\<lambda>k. mem_read (data_bin input) (i * 64 + 512 * k) 64) [0..<q]
      = map (\<lambda>j. take 64 (drop (i * 64 + j * 512) (bytes_of input))) [0..<q]"
  proof (rule map_cong [OF refl])
    fix k assume "k \<in> set [0..<q]"
    then have "k < q" by simp
    then have "512 * (k + 1) \<le> 512 * q" by simp
    then have "i * 64 + 512 * k + 64 \<le> L"
      using assms L by simp
    then have "mem_read (data_bin input) (i * 64 + 512 * k) 64
        = take 64 (drop (i * 64 + 512 * k) (mem_read (data_bin input) 0 L))"
      by (rule mem_read_slice)
    then show "mem_read (data_bin input) (i * 64 + 512 * k) 64
        = take 64 (drop (i * 64 + k * 512) (bytes_of input))"
      by (simp add: bytes_of_def L_def mult.commute)
  qed
  have tail: "mem_read (data_bin input) (i * 64 + 512 * q) (min 64 (R - i * 64))
      = take (min 64 (R - i * 64)) (drop (i * 64 + q * 512) (bytes_of input))"
    if "R > i * 64"
  proof -
    have "i * 64 + 512 * q + min 64 (R - i * 64) \<le> L"
      using that L by simp
    then have "mem_read (data_bin input) (i * 64 + 512 * q) (min 64 (R - i * 64))
        = take (min 64 (R - i * 64)) (drop (i * 64 + 512 * q) (mem_read (data_bin input) 0 L))"
      by (rule mem_read_slice)
    then show ?thesis
      by (simp add: bytes_of_def L_def mult.commute)
  qed
  have len: "(if R - i * 64 \<le> 64 then R - i * 64 else 64) = min 64 (R - i * 64)"
    by simp
  show ?thesis
    unfolding lane_absorb_def lane_loop_eq BLAKE2S_BLOCKBYTES_def
    by (simp add: Let_def lane_slices_def blake2s_update_def
          L_def [symmetric] q_def [symmetric] R_def [symmetric] full tail len
        del: upt_Suc)
qed

lemma init_leaves_ok:
  "(\<And>i. f i \<noteq> None) \<Longrightarrow> init_leaves f is S = (S @ map (\<lambda>i. the (f i)) is, True)"
proof (induction "is" arbitrary: S)
  case Nil
  then show ?case by simp
next
  case (Cons i "is")
  then obtain s where "f i = Some s" by (meson option.exhaust)
  with Cons show ?case by simp
qed

lemma init_leaf_accept:
  "\<forall>P. init_ok prim P \<Longrightarrow>
   blake2sp_init_leaf prim (ucast outlen) (of_nat (size_bin key)) (of_nat i)
     (data_bin salt_b) (data_bin personal_b) (of_nat (size_bin salt_b)) (of_nat (size_bin personal_b))
   = Some \<lparr>param = leaf_block outlen key salt_b personal_b i, last_node = False, absorbed = []\<rparr>"
  by (simp add: blake2sp_init_leaf_def blake2s_init_param_def leaf_block_def)

lemma init_root_accept:
  "\<forall>P. init_ok prim P \<Longrightarrow>
   blake2sp_init_root prim (ucast outlen) (of_nat (size_bin key))
     (data_bin salt_b) (data_bin personal_b) (of_nat (size_bin salt_b)) (of_nat (size_bin personal_b))
   = Some \<lparr>param = root_block outlen key salt_b personal_b, last_node = False, absorbed = []\<rparr>"
  by (simp add: blake2sp_init_root_def blake2s_init_param_def root_block_def)

lemma init_leaves_accept:
  assumes "\<forall>P. init_ok prim P"
  shows "init_leaves
           (\<lambda>i. blake2sp_init_leaf prim (ucast outlen) (of_nat (size_bin key)) (of_nat i)
                  (data_bin salt_b) (data_bin personal_b)
                  (of_nat (size_bin salt_b)) (of_nat (size_bin personal_b)))
           [0..<PARALLELISM_DEGREE] []
         = (map (\<lambda>i. \<lparr>param = leaf_block outlen key salt_b personal_b i, last_node = False,
                       absorbed = []\<rparr>) [0..<8], True)"
  by (subst init_leaves_ok)
     (simp_all add: init_leaf_accept [OF assms] PARALLELISM_DEGREE_def del: upt_Suc)

lemma key_phase_eq:
  "size_bin key \<le> 32 \<Longrightarrow> key_phase key S =
     (if size_bin key > 0
      then (map (\<lambda>s. s\<lparr>absorbed := absorbed s @ [key_block key]\<rparr>) S, Some (replicate 64 0))
      else (S, None))"
  by (simp add: key_phase_def Let_def memset_def memcpy_def secure_zero_memory_def
      BLAKE2S_BLOCKBYTES_def blake2s_update_def key_block_def bytes_of_def mem_read_def)

text \<open>
  The whole run of a call whose lengths are in bounds, on a primitive that accepts the
  parameter blocks.
\<close>

lemma body_eq:
  fixes prim input key outlen salt_b personal_b
  assumes "outlen \<noteq> 0" "outlen \<le> 32" "size_bin key \<le> 32" "\<forall>P. init_ok prim P"
  defines "leaves \<equiv> map (\<lambda>i. \<lparr>param = leaf_block outlen key salt_b personal_b i,
                last_node = (i = 7),
                absorbed = (if size_bin key > 0 then [key_block key] else [])
                            @ lane_slices (bytes_of input) i\<rparr>) [0..<8]"
  defines "hashes \<equiv> map (\<lambda>s. blake2s_final prim s 32) leaves"
  defines "FS \<equiv> \<lparr>param = root_block outlen key salt_b personal_b, last_node = True,
                  absorbed = hashes\<rparr>"
  shows "blake2sp_body prim input key outlen salt_b personal_b =
     \<lparr>ret = UInt_List (map unat (blake2s_final prim FS (unat outlen))),
      S_arr = leaves,
      FS_st = Some FS,
      hash_arr = hashes,
      block_buf = (if size_bin key > 0 then Some (replicate 64 0) else None),
      out_buf = blake2s_final prim FS (unat outlen) @ replicate (32 - unat outlen) 0\<rparr>"
proof -
  have c: "\<not> (outlen = 0 \<or> outlen > of_nat BLAKE2S_OUTBYTES)" "\<not> size_bin key > BLAKE2S_KEYBYTES"
    using assms(1-3) by (simp_all add: BLAKE2S_OUTBYTES_def BLAKE2S_KEYBYTES_def not_less)
  show ?thesis
    unfolding blake2sp_body_def Let_def FS_def hashes_def leaves_def
    apply (simp only: c if_False init_leaves_accept [OF assms(4)] init_root_accept [OF assms(4)]
       key_phase_eq [OF assms(3)] foldl_update)
    apply (simp only: PARALLELISM_DEGREE_def upt8)
    apply (simp add: lane_absorb_eq locals0_def BLAKE2S_OUTBYTES_def)
    done
qed

lemma store48_lane: "i < 8 \<Longrightarrow> store48 (of_nat i) = [of_nat i, 0, 0, 0, 0, 0]"
  by (drule lt8_cases) (auto simp: store48_def upt_rec drop_bit_eq_div)

lemma store48_zero: "store48 0 = [0, 0, 0, 0, 0, 0]"
  by (simp add: store48_def upt_rec)

lemma word_of_nat_lane_inj:
  "i < 8 \<Longrightarrow> j < 8 \<Longrightarrow> (of_nat i :: u8) = of_nat j \<Longrightarrow> i = j"
proof -
  assume a: "i < 8" "j < 8" "(of_nat i :: u8) = of_nat j"
  then have "unat (of_nat i :: u8) = unat (of_nat j :: u8)" by simp
  with a(1,2) show "i = j" by (simp add: unat_of_nat)
qed

lemma unat_ucast_outlen: "outlen \<le> (32 :: 32 word) \<Longrightarrow> unat (ucast outlen :: u8) = unat outlen"
proof -
  assume "outlen \<le> 32"
  then have "unat outlen \<le> 32" by (simp add: word_le_nat_alt)
  then show ?thesis by (simp add: unsigned_ucast_eq take_bit_eq_mod)
qed

lemma unat_of_nat_keylen: "n \<le> 32 \<Longrightarrow> unat (of_nat n :: u8) = n"
  by (simp add: unat_of_nat)

lemma leaf_block_fields:
  "digest_length (leaf_block outlen key salt_b personal_b i) = ucast outlen"
  "key_length (leaf_block outlen key salt_b personal_b i) = of_nat (size_bin key)"
  "fanout (leaf_block outlen key salt_b personal_b i) = 8"
  "depth (leaf_block outlen key salt_b personal_b i) = 2"
  "leaf_length (leaf_block outlen key salt_b personal_b i) = 0"
  "node_offset (leaf_block outlen key salt_b personal_b i) = store48 (of_nat i)"
  "node_depth (leaf_block outlen key salt_b personal_b i) = 0"
  "inner_length (leaf_block outlen key salt_b personal_b i) = 32"
  by (simp_all add: leaf_block_def blake2sp_leaf_param_def PARALLELISM_DEGREE_def
      BLAKE2S_OUTBYTES_def store32_def)

lemma root_block_fields:
  "digest_length (root_block outlen key salt_b personal_b) = ucast outlen"
  "key_length (root_block outlen key salt_b personal_b) = of_nat (size_bin key)"
  "fanout (root_block outlen key salt_b personal_b) = 8"
  "depth (root_block outlen key salt_b personal_b) = 2"
  "leaf_length (root_block outlen key salt_b personal_b) = 0"
  "node_offset (root_block outlen key salt_b personal_b) = store48 0"
  "node_depth (root_block outlen key salt_b personal_b) = 1"
  "inner_length (root_block outlen key salt_b personal_b) = 32"
  by (simp_all add: root_block_def blake2sp_root_param_def PARALLELISM_DEGREE_def
      BLAKE2S_OUTBYTES_def store32_def)

lemma body_leaf_param:
  assumes "outlen \<noteq> 0" "outlen \<le> 32" "size_bin key \<le> 32" "\<forall>P. init_ok prim P" "i < 8"
  shows "param (S_arr (blake2sp_body prim input key outlen salt_b personal_b) ! i)
           = leaf_block outlen key salt_b personal_b i"
  using assms(5) by (simp add: body_eq [OF assms(1-4)] del: upt_Suc)

lemma body_root_param:
  assumes "outlen \<noteq> 0" "outlen \<le> 32" "size_bin key \<le> 32" "\<forall>P. init_ok prim P"
  shows "FS_st (blake2sp_body prim input key outlen salt_b personal_b) \<noteq> None"
    and "param (the (FS_st (blake2sp_body prim input key outlen salt_b personal_b)))
           = root_block outlen key salt_b personal_b"
  by (simp_all add: body_eq [OF assms(1-4)] del: upt_Suc)

lemma lane_slices_lengths:
  assumes "i < 8"
  shows "map length (lane_slices msg i) =
     replicate (length msg div 512) 64 @
     (if i * 64 < length msg mod 512 then [min 64 (length msg mod 512 - i * 64)] else [])"
proof -
  define L where "L = length msg"
  define q where "q = L div 512"
  define R where "R = L mod 512"
  have L: "L = 512 * q + R"
    by (simp add: q_def R_def)
  have full: "map (\<lambda>j. length (take 64 (drop (i * 64 + j * 512) msg))) [0..<q]
      = map (\<lambda>j. 64) [0..<q]"
  proof (rule map_cong [OF refl])
    fix k assume "k \<in> set [0..<q]"
    then have "k < q" by simp
    then have "512 * (k + 1) \<le> 512 * q" by simp
    then have "i * 64 + k * 512 + 64 \<le> L"
      using assms L by simp
    then show "length (take 64 (drop (i * 64 + k * 512) msg)) = 64"
      by (simp add: L_def)
  qed
  have tail: "length (take (min 64 (R - i * 64)) (drop (i * 64 + q * 512) msg)) = min 64 (R - i * 64)"
    using L by (simp add: L_def [symmetric])
  show ?thesis
    using full tail
    by (simp add: lane_slices_def Let_def L_def [symmetric] q_def [symmetric] R_def [symmetric]
        comp_def map_replicate_const del: upt_Suc)
qed

lemma length_key_block: "size_bin key \<le> 32 \<Longrightarrow> length (key_block key) = 64"
  by (simp add: key_block_def)

lemma salt_personal_fields:
  "salt (leaf_block outlen key salt_b personal_b i) =
     (if (of_nat (size_bin salt_b) :: u8) \<noteq> 0 then mem_read (data_bin salt_b) 0 8
      else replicate 8 0)"
  "personal (leaf_block outlen key salt_b personal_b i) =
     (if (of_nat (size_bin personal_b) :: u8) \<noteq> 0 then mem_read (data_bin personal_b) 0 8
      else replicate 8 0)"
  "salt (root_block outlen key salt_b personal_b) =
     (if (of_nat (size_bin salt_b) :: u8) \<noteq> 0 then mem_read (data_bin salt_b) 0 8
      else replicate 8 0)"
  "personal (root_block outlen key salt_b personal_b) =
     (if (of_nat (size_bin personal_b) :: u8) \<noteq> 0 then mem_read (data_bin personal_b) 0 8
      else replicate 8 0)"
  by (simp_all add: leaf_block_def root_block_def blake2sp_leaf_param_def
      blake2sp_root_param_def BLAKE2S_SALTBYTES_def BLAKE2S_PERSONALBYTES_def)

lemma salt_field_empty_or_full:
  "size_bin salt_b = 0 \<Longrightarrow> salt (leaf_block outlen key salt_b personal_b i) = replicate 8 0"
  "size_bin salt_b = 8 \<Longrightarrow> salt (leaf_block outlen key salt_b personal_b i) = bytes_of salt_b"
  "size_bin salt_b = 0 \<Longrightarrow> salt (root_block outlen key salt_b personal_b) = replicate 8 0"
  "size_bin salt_b = 8 \<Longrightarrow> salt (root_block outlen key salt_b personal_b) = bytes_of salt_b"
  by (simp_all add: salt_personal_fields bytes_of_def)

text \<open>
  A call with five arguments of the right kinds runs the body on the decoded values.
\<close>

lemma blake2sp_hash_decoded:
  "0 \<le> n \<Longrightarrow> n < 2 ^ 32 \<Longrightarrow>
   blake2sp_hash prim [Term_Binary input, Term_Binary key, Term_Integer n, Term_Binary salt_b,
     Term_Binary personal_b] = blake2sp_body prim input key (word_of_int n) salt_b personal_b"
  by simp

text \<open>
  Whatever the call, when it returns the key block buffer has never been used or is zero.
\<close>

lemma block_buf_never_key:
  "block_buf (blake2sp_body prim input key outlen salt_b personal_b) = None \<or>
   block_buf (blake2sp_body prim input key outlen salt_b personal_b) = Some (replicate 64 0)"
  unfolding blake2sp_body_def Let_def
  by (auto simp add: locals0_def BLAKE2S_KEYBYTES_def not_less key_phase_eq
      split: prod.splits bool.splits option.splits if_splits)

subsection \<open>The parameter blocks\<close>

text \<open>
  C2. In a call with output length \<open>outlen\<close> and key length \<open>size_bin key\<close>, the parameter
  block of every leaf \<open>i\<close> (0 to 7) has digest length \<open>outlen\<close>, key length the key's length,
  fan-out 8, depth 2, leaf length 0, inner length 32, node offset \<open>i\<close> (in the six bytes of
  the field, least significant first) and node depth 0; the root's block has the same
  common fields, node offset 0 and node depth 1.
\<close>

theorem parameter_blocks_fields:
  fixes prim input key outlen salt_b personal_b
  defines "r \<equiv> blake2sp_body prim input key outlen salt_b personal_b"
  assumes "outlen \<noteq> 0" "outlen \<le> 32" "size_bin key \<le> 32" "\<forall>P. init_ok prim P" "i < 8"
  shows "length (S_arr r) = 8 \<and>
         unat (digest_length (param (S_arr r ! i))) = unat outlen \<and>
         unat (key_length (param (S_arr r ! i))) = size_bin key \<and>
         fanout (param (S_arr r ! i)) = 8 \<and>
         depth (param (S_arr r ! i)) = 2 \<and>
         leaf_length (param (S_arr r ! i)) = 0 \<and>
         inner_length (param (S_arr r ! i)) = 32 \<and>
         node_offset (param (S_arr r ! i)) = [of_nat i, 0, 0, 0, 0, 0] \<and>
         node_depth (param (S_arr r ! i)) = 0 \<and>
         FS_st r \<noteq> None \<and>
         unat (digest_length (param (the (FS_st r)))) = unat outlen \<and>
         unat (key_length (param (the (FS_st r)))) = size_bin key \<and>
         fanout (param (the (FS_st r))) = 8 \<and>
         depth (param (the (FS_st r))) = 2 \<and>
         leaf_length (param (the (FS_st r))) = 0 \<and>
         inner_length (param (the (FS_st r))) = 32 \<and>
         node_offset (param (the (FS_st r))) = [0, 0, 0, 0, 0, 0] \<and>
         node_depth (param (the (FS_st r))) = 1"
proof -
  have len: "length (S_arr r) = 8"
    unfolding r_def by (simp add: body_eq [OF assms(2-5)] del: upt_Suc)
  have lp: "param (S_arr r ! i) = leaf_block outlen key salt_b personal_b i"
    unfolding r_def by (rule body_leaf_param [OF assms(2-6)])
  have rp: "FS_st r \<noteq> None" "param (the (FS_st r)) = root_block outlen key salt_b personal_b"
    unfolding r_def by (rule body_root_param [OF assms(2-5)])+
  show ?thesis
    by (simp add: len lp rp leaf_block_fields root_block_fields store48_lane [OF assms(6)]
        store48_zero unat_ucast_outlen [OF assms(3)] unat_of_nat_keylen [OF assms(4)])
qed

theorem parameter_blocks_fields_witness:
  "(16 :: 32 word) \<noteq> 0 \<and> (16 :: 32 word) \<le> 32 \<and> size_bin example_key \<le> 32 \<and>
   (\<forall>P. init_ok example_prim P) \<and> (5 :: nat) < 8 \<and>
   unat (digest_length (param (S_arr example_run ! 5))) = 16 \<and>
   unat (key_length (param (S_arr example_run ! 5))) = 3 \<and>
   node_offset (param (S_arr example_run ! 5)) = [5, 0, 0, 0, 0, 0] \<and>
   node_depth (param (S_arr example_run ! 5)) = 0 \<and>
   node_offset (param (the (FS_st example_run))) = [0, 0, 0, 0, 0, 0] \<and>
   node_depth (param (the (FS_st example_run))) = 1"
  using parameter_blocks_fields [where outlen = 16 and key = example_key and prim = example_prim
      and i = 5 and input = example_input and salt_b = example_salt
      and personal_b = example_personal]
  by (simp add: example_run_def example_key_def example_prim_def)

text \<open>
  C9. The nine parameter blocks of a call are pairwise distinct: the blocks of two
  different leaves differ in the node offset and in nothing else, and the block of a leaf
  differs from the root's block in the node depth (0 against 1).
\<close>

theorem parameter_blocks_distinct:
  fixes prim input key outlen salt_b personal_b
  defines "r \<equiv> blake2sp_body prim input key outlen salt_b personal_b"
  assumes "outlen \<noteq> 0" "outlen \<le> 32" "size_bin key \<le> 32" "\<forall>P. init_ok prim P"
    and "i < 8" "j < 8" "i \<noteq> j"
  shows "param (S_arr r ! i) = (param (S_arr r ! j))\<lparr>node_offset := node_offset (param (S_arr r ! i))\<rparr> \<and>
         node_offset (param (S_arr r ! i)) \<noteq> node_offset (param (S_arr r ! j)) \<and>
         param (S_arr r ! i) \<noteq> param (S_arr r ! j) \<and>
         node_depth (param (S_arr r ! i)) = 0 \<and>
         node_depth (param (the (FS_st r))) = 1 \<and>
         param (S_arr r ! i) \<noteq> param (the (FS_st r))"
proof -
  have lp: "param (S_arr r ! i) = leaf_block outlen key salt_b personal_b i"
     "param (S_arr r ! j) = leaf_block outlen key salt_b personal_b j"
    unfolding r_def by (rule body_leaf_param [OF assms(2-5)], fact)+
  have rp: "param (the (FS_st r)) = root_block outlen key salt_b personal_b"
    unfolding r_def by (rule body_root_param [OF assms(2-5)])
  have off: "node_offset (leaf_block outlen key salt_b personal_b i)
      \<noteq> node_offset (leaf_block outlen key salt_b personal_b j)"
    using assms(6-8) word_of_nat_lane_inj [of i j]
    by (auto simp add: leaf_block_fields store48_lane)
  have same: "leaf_block outlen key salt_b personal_b i =
      (leaf_block outlen key salt_b personal_b j)\<lparr>node_offset := store48 (of_nat i)\<rparr>"
    by (simp add: leaf_block_def blake2sp_leaf_param_def)
  have ne: "leaf_block outlen key salt_b personal_b i \<noteq> leaf_block outlen key salt_b personal_b j"
    using off by auto
  have d: "leaf_block outlen key salt_b personal_b i \<noteq> root_block outlen key salt_b personal_b"
  proof
    assume "leaf_block outlen key salt_b personal_b i = root_block outlen key salt_b personal_b"
    then have "node_depth (leaf_block outlen key salt_b personal_b i)
       = node_depth (root_block outlen key salt_b personal_b)" by simp
    then show False by (simp add: leaf_block_fields root_block_fields)
  qed
  show ?thesis
    using off same ne d by (simp add: lp rp leaf_block_fields root_block_fields)
qed

theorem parameter_blocks_distinct_witness:
  "(16 :: 32 word) \<noteq> 0 \<and> (16 :: 32 word) \<le> 32 \<and> size_bin example_key \<le> 32 \<and>
   (\<forall>P. init_ok example_prim P) \<and> (0 :: nat) < 8 \<and> (7 :: nat) < 8 \<and> (0 :: nat) \<noteq> 7 \<and>
   param (S_arr example_run ! 0) \<noteq> param (S_arr example_run ! 7) \<and>
   param (S_arr example_run ! 0) \<noteq> param (the (FS_st example_run))"
  using parameter_blocks_distinct [where outlen = 16 and key = example_key
      and prim = example_prim and i = 0 and j = 7 and input = example_input
      and salt_b = example_salt and personal_b = example_personal]
  by (simp add: example_run_def example_key_def example_prim_def)

subsection \<open>The lanes\<close>

text \<open>
  C1. With block size 64 and 8 lanes, lane \<open>i\<close> absorbs (after the key block, if there is
  a key) exactly the block-strided slice of the input: the 64-byte blocks at the offsets
  \<open>i*64\<close>, \<open>i*64 + 512\<close>, \<open>i*64 + 2*512\<close>, ..., one for each full round of 512 bytes, and
  then, with \<open>R\<close> the input length modulo 512, one more chunk of \<open>min 64 (R - i*64)\<close> bytes
  if and only if \<open>R > i*64\<close>. A lane with no tail is finalized all the same, to 32 bytes.
\<close>

theorem lane_absorbs_strided_slice:
  fixes prim input key outlen salt_b personal_b
  defines "r \<equiv> blake2sp_body prim input key outlen salt_b personal_b"
  defines "msg \<equiv> bytes_of input"
  assumes "outlen \<noteq> 0" "outlen \<le> 32" "size_bin key \<le> 32" "\<forall>P. init_ok prim P" "i < 8"
  shows "length (S_arr r) = 8 \<and>
         absorbed (S_arr r ! i) =
           (if size_bin key > 0 then [key_block key] else []) @ lane_slices msg i \<and>
         lane_slices msg i =
           map (\<lambda>j. take 64 (drop (i * 64 + j * 512) msg)) [0..<size_bin input div 512] @
           (if i * 64 < size_bin input mod 512
            then [take (min 64 (size_bin input mod 512 - i * 64))
                    (drop (i * 64 + (size_bin input div 512) * 512) msg)]
            else []) \<and>
         map length (lane_slices msg i) =
           replicate (size_bin input div 512) 64 @
           (if i * 64 < size_bin input mod 512
            then [min 64 (size_bin input mod 512 - i * 64)] else []) \<and>
         hash_arr r ! i = blake2s_final prim (S_arr r ! i) 32 \<and>
         length (hash_arr r ! i) = 32"
proof -
  have a: "length (S_arr r) = 8"
    "absorbed (S_arr r ! i) = (if size_bin key > 0 then [key_block key] else []) @ lane_slices msg i"
    "hash_arr r ! i = blake2s_final prim (S_arr r ! i) 32"
    using assms(7) unfolding r_def msg_def
    by (simp_all add: body_eq [OF assms(3-6)] del: upt_Suc)
  have b: "lane_slices msg i =
           map (\<lambda>j. take 64 (drop (i * 64 + j * 512) msg)) [0..<size_bin input div 512] @
           (if i * 64 < size_bin input mod 512
            then [take (min 64 (size_bin input mod 512 - i * 64))
                    (drop (i * 64 + (size_bin input div 512) * 512) msg)]
            else [])"
    by (simp add: lane_slices_def Let_def msg_def)
  have c: "map length (lane_slices msg i) =
           replicate (size_bin input div 512) 64 @
           (if i * 64 < size_bin input mod 512
            then [min 64 (size_bin input mod 512 - i * 64)] else [])"
    using lane_slices_lengths [OF assms(7), of msg] by (simp add: msg_def)
  show ?thesis
    using a b c by simp
qed

theorem lane_absorbs_strided_slice_witness:
  "(16 :: 32 word) \<noteq> 0 \<and> (16 :: 32 word) \<le> 32 \<and> size_bin example_key \<le> 32 \<and>
   (\<forall>P. init_ok example_prim P) \<and> (2 :: nat) < 8 \<and>
   map length (absorbed (S_arr example_run ! 2)) = [64, 64, 60] \<and>
   absorbed (S_arr example_run ! 2) =
     [key_block example_key,
      take 64 (drop 128 (bytes_of example_input)),
      take 60 (drop 640 (bytes_of example_input))] \<and>
   length (hash_arr example_run ! 2) = 32"
  using lane_absorbs_strided_slice [where outlen = 16 and key = example_key
      and prim = example_prim and i = 2 and input = example_input
      and salt_b = example_salt and personal_b = example_personal]
  by (simp add: example_run_def example_key_def example_prim_def example_input_def key_block_def)

text \<open>
  C3. The last-node flag is set on exactly one leaf state, the one of lane 7, whatever the
  input is, and on the root state; the lane digests and the returned digest are those of
  the states so flagged.
\<close>

theorem last_node_flags:
  fixes prim input key outlen salt_b personal_b
  defines "r \<equiv> blake2sp_body prim input key outlen salt_b personal_b"
  assumes "outlen \<noteq> 0" "outlen \<le> 32" "size_bin key \<le> 32" "\<forall>P. init_ok prim P"
  shows "map last_node (S_arr r) = [False, False, False, False, False, False, False, True] \<and>
         hash_arr r = map (\<lambda>s. blake2s_final prim s 32) (S_arr r) \<and>
         map_option last_node (FS_st r) = Some True \<and>
         ret r = UInt_List (map unat (blake2s_final prim (the (FS_st r)) (unat outlen)))"
  unfolding r_def by (simp add: body_eq [OF assms(2-5)] upt8)

theorem last_node_flags_witness:
  "(16 :: 32 word) \<noteq> 0 \<and> (16 :: 32 word) \<le> 32 \<and> size_bin example_key \<le> 32 \<and>
   (\<forall>P. init_ok example_prim P) \<and>
   map last_node (S_arr example_run) = [False, False, False, False, False, False, False, True] \<and>
   map_option last_node (FS_st example_run) = Some True"
  using last_node_flags [where outlen = 16 and key = example_key
      and prim = example_prim and input = example_input
      and salt_b = example_salt and personal_b = example_personal]
  by (simp add: example_run_def example_key_def example_prim_def)

subsection \<open>The root\<close>

text \<open>
  C4. In a call with in-bounds lengths every leaf is finalized to 32 bytes, whatever
  \<open>outlen\<close> is; the root state absorbs the eight lane digests, in lane order, as eight
  updates of 32 bytes; it is finalized to \<open>outlen\<close> bytes and the call returns a list of
  \<open>outlen\<close> values.
\<close>

theorem root_combines_lane_digests:
  fixes prim input key outlen salt_b personal_b
  defines "r \<equiv> blake2sp_body prim input key outlen salt_b personal_b"
  assumes "outlen \<noteq> 0" "outlen \<le> 32" "size_bin key \<le> 32" "\<forall>P. init_ok prim P"
  shows "length (S_arr r) = 8 \<and>
         hash_arr r = map (\<lambda>s. blake2s_final prim s 32) (S_arr r) \<and>
         map length (hash_arr r) = [32, 32, 32, 32, 32, 32, 32, 32] \<and>
         map_option absorbed (FS_st r) = Some (hash_arr r) \<and>
         ret r = UInt_List (map unat (blake2s_final prim (the (FS_st r)) (unat outlen))) \<and>
         (\<exists>xs. ret r = UInt_List xs \<and> length xs = unat outlen)"
  unfolding r_def by (simp add: body_eq [OF assms(2-5)] upt8)

theorem root_combines_lane_digests_witness:
  "(16 :: 32 word) \<noteq> 0 \<and> (16 :: 32 word) \<le> 32 \<and> size_bin example_key \<le> 32 \<and>
   (\<forall>P. init_ok example_prim P) \<and>
   map length (hash_arr example_run) = [32, 32, 32, 32, 32, 32, 32, 32] \<and>
   map_option absorbed (FS_st example_run) = Some (hash_arr example_run) \<and>
   (\<exists>xs. ret example_run = UInt_List xs \<and> length xs = 16)"
proof -
  have h: "(16 :: 32 word) \<noteq> 0" "(16 :: 32 word) \<le> 32" "size_bin example_key \<le> 32"
    "\<forall>P. init_ok example_prim P"
    by (simp_all add: example_key_def example_prim_def)
  note t = root_combines_lane_digests [where outlen = 16 and key = example_key
      and prim = example_prim and input = example_input and salt_b = example_salt
      and personal_b = example_personal, OF h, folded example_run_def]
  have "unat (16 :: 32 word) = 16" by simp
  with h t show ?thesis by metis
qed

subsection \<open>The key\<close>

text \<open>
  C5. With a key of nonzero length every leaf state absorbs, before any input, the same
  block of 64 bytes: the key bytes followed by zeros. The root state absorbs the eight
  lane digests and no key block, while its parameter block records the key length.
\<close>

theorem key_block_in_every_leaf:
  fixes prim input key outlen salt_b personal_b
  defines "r \<equiv> blake2sp_body prim input key outlen salt_b personal_b"
  assumes "outlen \<noteq> 0" "outlen \<le> 32" "0 < size_bin key" "size_bin key \<le> 32"
    "\<forall>P. init_ok prim P"
  shows "map absorbed (S_arr r) =
           map (\<lambda>i. key_block key # lane_slices (bytes_of input) i) [0..<8] \<and>
         key_block key = bytes_of key @ replicate (64 - size_bin key) 0 \<and>
         length (key_block key) = 64 \<and>
         map_option absorbed (FS_st r) = Some (hash_arr r) \<and>
         length (hash_arr r) = 8 \<and>
         key_block key \<notin> set (hash_arr r) \<and>
         unat (key_length (param (the (FS_st r)))) = size_bin key"
proof -
  have k: "length (key_block key) = 64"
    using assms(5) by (rule length_key_block)
  have "length h = 32" if "h \<in> set (hash_arr r)" for h
    using that unfolding r_def by (auto simp add: body_eq [OF assms(2,3,5,6)] simp del: upt_Suc)
  then have n: "key_block key \<notin> set (hash_arr r)"
    using k by fastforce
  show ?thesis
    using k n assms(4) unfolding r_def
    by (simp add: body_eq [OF assms(2,3,5,6)] root_block_fields unat_of_nat_keylen [OF assms(5)]
          key_block_def del: upt_Suc)
qed

theorem key_block_in_every_leaf_witness:
  "(16 :: 32 word) \<noteq> 0 \<and> (16 :: 32 word) \<le> 32 \<and> 0 < size_bin example_key \<and>
   size_bin example_key \<le> 32 \<and> (\<forall>P. init_ok example_prim P) \<and>
   map absorbed (S_arr example_run) =
     map (\<lambda>i. key_block example_key # lane_slices (bytes_of example_input) i) [0..<8] \<and>
   key_block example_key = [1, 2, 3] @ replicate 61 0 \<and>
   key_block example_key \<notin> set (hash_arr example_run)"
proof -
  have h: "(16 :: 32 word) \<noteq> 0" "(16 :: 32 word) \<le> 32" "0 < size_bin example_key"
    "size_bin example_key \<le> 32" "\<forall>P. init_ok example_prim P"
    by (simp_all add: example_key_def example_prim_def)
  note t = key_block_in_every_leaf [where outlen = 16 and key = example_key
      and prim = example_prim and input = example_input and salt_b = example_salt
      and personal_b = example_personal, OF h, folded example_run_def]
  have kb: "key_block example_key = [1, 2, 3] @ replicate 61 0"
    by (simp add: key_block_def bytes_of_def mem_read_def example_key_def upt_rec)
  from h t kb show ?thesis by metis
qed

text \<open>
  C10. With a key of length 0 no key block is built or absorbed, not even one of zeros:
  every leaf state absorbs its slice of the input and nothing else.
\<close>

theorem unkeyed_absorbs_input_only:
  fixes prim input key outlen salt_b personal_b
  defines "r \<equiv> blake2sp_body prim input key outlen salt_b personal_b"
  assumes "outlen \<noteq> 0" "outlen \<le> 32" "size_bin key = 0" "\<forall>P. init_ok prim P"
  shows "map absorbed (S_arr r) = map (lane_slices (bytes_of input)) [0..<8] \<and>
         block_buf r = None \<and>
         hash_arr r = map (\<lambda>s. blake2s_final prim s 32) (S_arr r) \<and>
         map_option absorbed (FS_st r) = Some (hash_arr r)"
proof -
  have k: "size_bin key \<le> 32" using assms(4) by simp
  show ?thesis
    unfolding r_def using assms(4)
    by (simp add: body_eq [OF assms(2,3) k assms(5)] del: upt_Suc)
qed

theorem unkeyed_absorbs_input_only_witness:
  "(16 :: 32 word) \<noteq> 0 \<and> (16 :: 32 word) \<le> 32 \<and> size_bin example_no_key = 0 \<and>
   (\<forall>P. init_ok example_prim P) \<and>
   map absorbed
     (S_arr (blake2sp_body example_prim example_input example_no_key 16 example_salt
        example_personal))
    = map (lane_slices (bytes_of example_input)) [0..<8] \<and>
   block_buf (blake2sp_body example_prim example_input example_no_key 16 example_salt
        example_personal) = None"
proof -
  have h: "(16 :: 32 word) \<noteq> 0" "(16 :: 32 word) \<le> 32" "size_bin example_no_key = 0"
    "\<forall>P. init_ok example_prim P"
    by (simp_all add: example_no_key_def example_prim_def)
  note t = unkeyed_absorbs_input_only [where outlen = 16 and key = example_no_key
      and prim = example_prim and input = example_input and salt_b = example_salt
      and personal_b = example_personal, OF h]
  from h t show ?thesis by metis
qed




subsection \<open>Salt and personalization\<close>

text \<open>
  C6. The claim that a salt of 1 to 8 bytes ends up in the field followed by zeros fails
  for a salt shorter than the field: with a nonzero length both \<open>blake2sp_init_leaf\<close> and
  \<open>blake2sp_init_root\<close> copy 8 bytes from \<open>salt.data\<close>. For the one-byte salt \<open>short_salt\<close>
  the field of leaf 0 and of the root is the salt byte followed by the seven bytes behind
  the binary in memory, not by zeros.
\<close>

theorem salt_field_overread:
  "bytes_of short_salt = [1] \<and>
   salt (param (S_arr (blake2sp_body example_prim example_input example_key 16 short_salt
                         example_personal) ! 0))
     = [1, 255, 255, 255, 255, 255, 255, 255] \<and>
   salt (param (the (FS_st (blake2sp_body example_prim example_input example_key 16 short_salt
                         example_personal))))
     = [1, 255, 255, 255, 255, 255, 255, 255] \<and>
   salt (param (S_arr (blake2sp_body example_prim example_input example_key 16 short_salt
                         example_personal) ! 0))
     \<noteq> [1, 0, 0, 0, 0, 0, 0, 0]"
proof -
  have h: "(16 :: 32 word) \<noteq> 0" "(16 :: 32 word) \<le> 32" "size_bin example_key \<le> 32"
    "\<forall>P. init_ok example_prim P"
    by (simp_all add: example_key_def example_prim_def)
  have b: "bytes_of short_salt = [1]"
    by (simp add: bytes_of_def mem_read_def short_salt_def)
  have m: "mem_read (data_bin short_salt) 0 8 = [1, 255, 255, 255, 255, 255, 255, 255]"
    by (simp add: mem_read_def short_salt_def upt8)
  have n: "(of_nat (size_bin short_salt) :: u8) \<noteq> 0"
    by (simp add: short_salt_def)
  show ?thesis
    using m n b
    by (simp add: body_eq [OF h] salt_personal_fields upt8)
qed

subsection \<open>Configuration errors\<close>

text \<open>
  C7. If \<open>outlen\<close> is 0 or greater than 32, or the key is longer than 32 bytes, the call
  returns at one of the two checks of lines 98 and 99: no leaf or root state has been
  initialized, no digest and no key block computed, and \<open>out\<close> is as initialized. If the
  three values are in bounds, the call does not return at these checks.
\<close>

theorem configuration_error_before_work:
  fixes prim input key outlen salt_b personal_b
  defines "r \<equiv> blake2sp_body prim input key outlen salt_b personal_b"
  shows "(outlen = 0 \<or> 32 < outlen \<or> 32 < size_bin key \<longrightarrow>
            (ret r = Bad_Outlen \<or> ret r = Bad_Keylen) \<and>
            S_arr r = [] \<and> FS_st r = None \<and> hash_arr r = [] \<and> block_buf r = None \<and>
            out_buf r = replicate 32 0) \<and>
         (outlen \<noteq> 0 \<and> outlen \<le> 32 \<and> size_bin key \<le> 32 \<longrightarrow>
            ret r \<noteq> Bad_Outlen \<and> ret r \<noteq> Bad_Keylen)"
  unfolding r_def blake2sp_body_def Let_def
  by (auto simp add: locals0_def BLAKE2S_OUTBYTES_def BLAKE2S_KEYBYTES_def not_less
      split: prod.splits bool.splits option.splits)

theorem configuration_error_before_work_witness:
  "((0 :: 32 word) = 0 \<or> 32 < (0 :: 32 word) \<or> 32 < size_bin example_key) \<and>
   ret (blake2sp_body example_prim example_input example_key 0 example_salt example_personal)
     = Bad_Outlen \<and>
   S_arr (blake2sp_body example_prim example_input example_key 0 example_salt example_personal)
     = [] \<and>
   ((33 :: 32 word) = 0 \<or> 32 < (33 :: 32 word) \<or> 32 < size_bin example_key) \<and>
   ret (blake2sp_body example_prim example_input example_key 33 example_salt example_personal)
     = Bad_Outlen \<and>
   ((16 :: 32 word) = 0 \<or> 32 < (16 :: 32 word) \<or> 32 < size_bin example_input) \<and>
   ret (blake2sp_body example_prim example_input example_input 16 example_salt example_personal)
     = Bad_Keylen \<and>
   ((16 :: 32 word) \<noteq> 0 \<and> (16 :: 32 word) \<le> 32 \<and> size_bin example_key \<le> 32) \<and>
   ret example_run \<noteq> Bad_Outlen \<and> ret example_run \<noteq> Bad_Keylen"
proof -
  have a: "ret (blake2sp_body example_prim example_input example_key 0 example_salt
                 example_personal) \<noteq> Bad_Keylen"
    "ret (blake2sp_body example_prim example_input example_key 33 example_salt
                 example_personal) \<noteq> Bad_Keylen"
    "ret (blake2sp_body example_prim example_input example_input 16 example_salt
                 example_personal) \<noteq> Bad_Outlen"
    by (simp_all add: blake2sp_body_def Let_def locals0_def BLAKE2S_OUTBYTES_def
        BLAKE2S_KEYBYTES_def example_input_def)
  have h: "(0 :: 32 word) = 0 \<or> 32 < (0 :: 32 word) \<or> 32 < size_bin example_key"
    "(33 :: 32 word) = 0 \<or> 32 < (33 :: 32 word) \<or> 32 < size_bin example_key"
    "(16 :: 32 word) = 0 \<or> 32 < (16 :: 32 word) \<or> 32 < size_bin example_input"
    "(16 :: 32 word) \<noteq> 0 \<and> (16 :: 32 word) \<le> 32 \<and> size_bin example_key \<le> 32"
    by (simp_all add: example_key_def example_input_def)
  note t0 = configuration_error_before_work [where outlen = 0 and key = example_key
      and prim = example_prim and input = example_input and salt_b = example_salt
      and personal_b = example_personal]
  note t33 = configuration_error_before_work [where outlen = 33 and key = example_key
      and prim = example_prim and input = example_input and salt_b = example_salt
      and personal_b = example_personal]
  note tk = configuration_error_before_work [where outlen = 16 and key = example_input
      and prim = example_prim and input = example_input and salt_b = example_salt
      and personal_b = example_personal]
  note tv = configuration_error_before_work [where outlen = 16 and key = example_key
      and prim = example_prim and input = example_input and salt_b = example_salt
      and personal_b = example_personal, folded example_run_def]
  from a h t0 t33 tk tv show ?thesis by blast
qed

end
